theory Spec2Isabelle
  imports Complex_Main
begin

section \<open>Data model (models.py)\<close>

text \<open>
  Python floats are \<^typ>\<open>real\<close>s here: their arithmetic is taken without rounding,
  and of their finite range only what raises is kept, the \<^verbatim>\<open>OverflowError\<close> of
  \<^verbatim>\<open>**\<close> (see \<open>float_pow\<close> below). Python ints are \<^typ>\<open>int\<close>. The attempt counter
  of the polling loop starts at 0 and is only ever incremented, so it is a \<^typ>\<open>nat\<close>.
\<close>

datatype JobStatus = pending | completed | error

text \<open>A decoded JSON value; \<open>JObj\<close> holds the items of a decoded dict.\<close>

datatype json =
    JNull
  | JBool bool
  | JNum real
  | JStr string
  | JArr "json list"
  | JObj "(string \<times> json) list"

record StatusResponse =
  status :: JobStatus
  raw_response :: json
  elapsed_time :: real

record StatusPollingConfig =
  initial_delay :: real
  max_delay :: real
  backoff_factor :: real
  max_attempts :: int
  timeout :: real
  jitter :: bool

text \<open>The field defaults of \<^verbatim>\<open>StatusPollingConfig\<close>.\<close>

definition default_config :: StatusPollingConfig where
  "default_config =
     \<lparr>initial_delay = 1, max_delay = 32, backoff_factor = 2,
      max_attempts = 10, timeout = 300, jitter = True\<rparr>"

section \<open>Exceptions\<close>

text \<open>
  The exception classes that matter to the control flow.
  \<open>ClientConnectionError\<close> and \<open>ClientResponseError\<close> are subclasses of
  \<^verbatim>\<open>aiohttp.ClientError\<close>; \<open>ClientErrorOther\<close> stands for every other subclass of it.
  \<open>ValueError\<close>, \<open>KeyError\<close>, \<open>TypeError\<close> and \<open>OverflowError\<close> are the builtins, and
  \<open>OtherException\<close> is any exception outside these classes.
\<close>

datatype exn =
    ClientConnectionError
  | ClientResponseError nat
  | ClientErrorOther
  | ValueError
  | KeyError
  | TypeError
  | OverflowError
  | OtherException

fun is_ClientError :: "exn \<Rightarrow> bool" where
  "is_ClientError ClientConnectionError = True"
| "is_ClientError (ClientResponseError _) = True"
| "is_ClientError ClientErrorOther = True"
| "is_ClientError _ = False"

fun is_ClientConnectionError :: "exn \<Rightarrow> bool" where
  "is_ClientConnectionError ClientConnectionError = True"
| "is_ClientConnectionError _ = False"

text \<open>
  What \<^verbatim>\<open>poll_until_complete\<close> can raise: an exception of a fetch that it lets
  through, or its own \<^verbatim>\<open>TimeoutError\<close>, whose message names \<^verbatim>\<open>config.timeout\<close>.
\<close>

datatype poll_error = Raised exn | TimeoutError real

section \<open>The client and its environment\<close>

text \<open>
  The callback is user code, \<^verbatim>\<open>Callable[[StatusResponse], Any]\<close>. What the loop sees of
  \<^verbatim>\<open>await asyncio.create_task(self.on_status_change(r))\<close> is the time it takes on the loop
  clock and whether it raises: a coroutine function that returns gives \<open>None\<close>, one
  that raises \<open>e\<close> gives \<open>Some e\<close>, and a plain function, whose result is no coroutine,
  gives \<open>Some TypeError\<close> (raised by \<^verbatim>\<open>create_task\<close>).
\<close>

type_synonym callback = "StatusResponse \<Rightarrow> real \<times> exn option"

record VideoTranslationClient =
  base_url :: string
  config :: StatusPollingConfig
  on_status_change :: "callback option"

text \<open>\<^verbatim>\<open>str.rstrip("/")\<close>.\<close>

definition rstrip_slash :: "string \<Rightarrow> string" where
  "rstrip_slash s = rev (dropWhile (\<lambda>ch. ch = CHR ''/'') (rev s))"

text \<open>\<^verbatim>\<open>VideoTranslationClient.__init__\<close>.\<close>

definition new_client ::
  "string \<Rightarrow> StatusPollingConfig option \<Rightarrow> callback option \<Rightarrow> VideoTranslationClient" where
  "new_client url cfg cb =
     \<lparr>base_url = rstrip_slash url,
      config = (case cfg of None \<Rightarrow> default_config | Some c \<Rightarrow> c),
      on_status_change = cb\<rparr>"

text \<open>
  What the transport does on one request: \<^verbatim>\<open>session.get\<close> raises, or a response
  arrives with an HTTP status code and a body on which \<^verbatim>\<open>response.json()\<close> either
  raises or returns the decoded payload.
\<close>

datatype body = JsonRaises exn | Json json

datatype reply = GetRaises exn | Response nat body

text \<open>
  The remote service: the \<open>i\<close>-th request issued takes the given time on the loop
  clock and is answered by the given reply.
\<close>

type_synonym remote = "nat \<Rightarrow> real \<times> reply"

text \<open>The loop clock (\<^verbatim>\<open>loop.time()\<close>) and the number of requests issued so far.\<close>

record world =
  now :: real
  fetches :: nat

text \<open>What an observer of one call sees, in order.\<close>

datatype event =
    Checked real nat
  | Fetched "exn + StatusResponse"
  | Notified StatusResponse
  | Slept real

section \<open>StatusFetcher: \<^verbatim>\<open>_get_status_once\<close>\<close>

text \<open>\<^verbatim>\<open>JobStatus(v)\<close>: every value that is not one of the three names is a \<^verbatim>\<open>ValueError\<close>.\<close>

fun JobStatus_of :: "json \<Rightarrow> exn + JobStatus" where
  "JobStatus_of (JStr s) =
     (if s = ''pending'' then Inr pending
      else if s = ''completed'' then Inr completed
      else if s = ''error'' then Inr error
      else Inl ValueError)"
| "JobStatus_of _ = Inl ValueError"

text \<open>\<^verbatim>\<open>data["result"]\<close>.\<close>

fun get_result :: "json \<Rightarrow> exn + json" where
  "get_result (JObj kvs) =
     (case map_of kvs ''result'' of None \<Rightarrow> Inl KeyError | Some v \<Rightarrow> Inr v)"
| "get_result _ = Inl TypeError"

text \<open>
  The body of the \<^verbatim>\<open>try\<close> of \<^verbatim>\<open>_get_status_once\<close> for a request that took \<open>d\<close>;
  both \<^verbatim>\<open>except\<close> clauses log and re-raise.
\<close>

fun parse_reply :: "real \<Rightarrow> reply \<Rightarrow> exn + StatusResponse" where
  "parse_reply d (GetRaises e) = Inl e"
| "parse_reply d (Response code b) =
     (if 400 \<le> code then Inl (ClientResponseError code)
      else case b of
          JsonRaises e \<Rightarrow> Inl e
        | Json data \<Rightarrow>
            (case get_result data of
               Inl e \<Rightarrow> Inl e
             | Inr v \<Rightarrow>
                 (case JobStatus_of v of
                    Inl e \<Rightarrow> Inl e
                  | Inr s \<Rightarrow> Inr \<lparr>status = s, raw_response = data, elapsed_time = d\<rparr>)))"

definition get_status_once :: "remote \<Rightarrow> world \<Rightarrow> (exn + StatusResponse) \<times> world" where
  "get_status_once srv w =
     (let (d, rep) = srv (fetches w)
      in (parse_reply d rep, w\<lparr>now := now w + d, fetches := fetches w + 1\<rparr>))"

section \<open>PollingEngine\<close>

text \<open>
  \<^verbatim>\<open>b ** n\<close> for a float \<open>b\<close> and an int \<open>n \<ge> 0\<close>: Python raises \<^verbatim>\<open>OverflowError\<close> when the
  result is out of the range of a float, that is, when its magnitude reaches
  \<open>float_limit\<close>.
\<close>

definition float_limit :: real where
  "float_limit = 2 ^ 1024"

definition float_pow :: "real \<Rightarrow> nat \<Rightarrow> exn + real" where
  "float_pow b n = (if float_limit \<le> \<bar>b ^ n\<bar> then Inl OverflowError else Inr (b ^ n))"

text \<open>
  \<^verbatim>\<open>_calculate_delay\<close>, with the clock reading \<open>t\<close> that the jitter is taken from. The
  power is computed before \<^verbatim>\<open>min\<close> is applied.
\<close>

definition calculate_delay :: "VideoTranslationClient \<Rightarrow> real \<Rightarrow> nat \<Rightarrow> exn + real" where
  "calculate_delay c t attempt =
     (case float_pow (backoff_factor (config c)) attempt of
        Inl e \<Rightarrow> Inl e
      | Inr p \<Rightarrow>
          (let delay = min (initial_delay (config c) * p) (max_delay (config c))
           in Inr (if jitter (config c) then delay * (1 + 0.2 * frac t) else delay)))"

text \<open>
  \<^verbatim>\<open>_handle_status_change\<close>: the exception it raises, if any, the events it produces
  and the world after it.
\<close>

definition handle_status_change ::
  "VideoTranslationClient \<Rightarrow> StatusResponse \<Rightarrow> JobStatus option \<Rightarrow> world
     \<Rightarrow> exn option \<times> event list \<times> world" where
  "handle_status_change c r last_status w =
     (case on_status_change c of
        Some cb \<Rightarrow>
          if last_status \<noteq> Some (status r)
          then (case cb r of (t, x) \<Rightarrow> (x, [Notified r], w\<lparr>now := now w + t\<rparr>))
          else (None, [], w)
      | None \<Rightarrow> (None, [], w))"

text \<open>
  \<^verbatim>\<open>_wait_before_retry\<close>: it raises what \<^verbatim>\<open>_calculate_delay\<close> raises; otherwise
  \<^verbatim>\<open>asyncio.sleep(delay)\<close> advances the loop clock by the delay, and returns at once for
  a delay that is not positive.
\<close>

definition wait_before_retry ::
  "VideoTranslationClient \<Rightarrow> nat \<Rightarrow> world \<Rightarrow> exn option \<times> event list \<times> world" where
  "wait_before_retry c attempt w =
     (case calculate_delay c (now w) attempt of
        Inl e \<Rightarrow> (Some e, [], w)
      | Inr delay \<Rightarrow> (None, [Slept delay], w\<lparr>now := now w + max 0 delay\<rparr>))"

definition terminal :: "JobStatus \<Rightarrow> bool" where
  "terminal s = (s = completed \<or> s = error)"

text \<open>
  How the body of the \<^verbatim>\<open>try\<close> in the loop of \<^verbatim>\<open>poll_until_complete\<close> ends: by its
  \<^verbatim>\<open>return\<close>, by running through, or by an exception; the last two with the values of
  \<^verbatim>\<open>attempt\<close> and \<^verbatim>\<open>last_status\<close> at that point.
\<close>

datatype try_result =
    Returned StatusResponse
  | Completed nat "JobStatus option"
  | Raising exn nat "JobStatus option"

definition try_body ::
  "VideoTranslationClient \<Rightarrow> remote \<Rightarrow> nat \<Rightarrow> JobStatus option \<Rightarrow> world
     \<Rightarrow> try_result \<times> event list \<times> world" where
  "try_body c srv attempt last_status w =
     (case get_status_once srv w of
        (Inl e, w1) \<Rightarrow> (Raising e attempt last_status, [Fetched (Inl e)], w1)
      | (Inr r, w1) \<Rightarrow>
          (case handle_status_change c r last_status w1 of
             (Some e, evs1, w2) \<Rightarrow> (Raising e attempt last_status, Fetched (Inr r) # evs1, w2)
           | (None, evs1, w2) \<Rightarrow>
               if terminal (status r)
               then (Returned r, Fetched (Inr r) # evs1, w2)
               else
                 (case wait_before_retry c (attempt + 1) w2 of
                    (Some e, evs2, w3) \<Rightarrow>
                      (Raising e (attempt + 1) (Some (status r)), Fetched (Inr r) # evs1 @ evs2, w3)
                  | (None, evs2, w3) \<Rightarrow>
                      (Completed (attempt + 1) (Some (status r)), Fetched (Inr r) # evs1 @ evs2, w3))))"

text \<open>
  The \<^verbatim>\<open>while\<close> loop of \<^verbatim>\<open>poll_until_complete\<close>, from its guard on, with the
  \<^verbatim>\<open>except aiohttp.ClientError\<close> clause of its \<^verbatim>\<open>try\<close>; \<open>deadline\<close> is the local
  \<^verbatim>\<open>timeout\<close>. The result is what the call returns or raises, the events of the rest of
  the call, and the world at its end.
\<close>

function poll_loop ::
  "VideoTranslationClient \<Rightarrow> remote \<Rightarrow> real \<Rightarrow> nat \<Rightarrow> JobStatus option \<Rightarrow> world
     \<Rightarrow> (poll_error + StatusResponse) \<times> event list \<times> world" where
  "poll_loop c srv deadline attempt last_status w =
     (if now w < deadline \<and> int attempt < max_attempts (config c) then
        (case try_body c srv attempt last_status w of
           (Returned r, evs1, w1) \<Rightarrow> (Inr r, Checked (now w) attempt # evs1, w1)
         | (Completed a l, evs1, w1) \<Rightarrow>
             (case poll_loop c srv deadline a l w1 of
                (out, evs, w') \<Rightarrow> (out, Checked (now w) attempt # evs1 @ evs, w'))
         | (Raising e a l, evs1, w1) \<Rightarrow>
             if is_ClientError e then
               if is_ClientConnectionError e
               then (Inl (Raised e), Checked (now w) attempt # evs1, w1)
               else
                 (case wait_before_retry c a w1 of
                    (Some e', evs2, w2) \<Rightarrow>
                      (Inl (Raised e'), Checked (now w) attempt # evs1 @ evs2, w2)
                  | (None, evs2, w2) \<Rightarrow>
                      (case poll_loop c srv deadline (a + 1) l w2 of
                         (out, evs, w') \<Rightarrow>
                           (out, Checked (now w) attempt # evs1 @ evs2 @ evs, w')))
             else (Inl (Raised e), Checked (now w) attempt # evs1, w1))
      else (Inl (TimeoutError (timeout (config c))), [Checked (now w) attempt], w))"
  by pat_completeness auto
termination
  by (relation "measure (\<lambda>(c, srv, deadline, attempt, last_status, w).
        nat (max_attempts (config c) - int attempt))")
     (auto simp: try_body_def split: prod.splits sum.splits option.splits if_splits)

text \<open>\<^verbatim>\<open>poll_until_complete\<close>: the loop state is created here, at every call.\<close>

definition poll_until_complete ::
  "VideoTranslationClient \<Rightarrow> remote \<Rightarrow> world
     \<Rightarrow> (poll_error + StatusResponse) \<times> event list \<times> world" where
  "poll_until_complete c srv w =
     poll_loop c srv (now w + timeout (config c)) 0 None w"


section \<open>The mock server's replies (translation_server.py)\<close>

text \<open>\<^verbatim>\<open>web.json_response({"result": s})\<close>: HTTP 200 with that JSON body.\<close>

definition json_response :: "string \<Rightarrow> reply" where
  "json_response s = Response 200 (Json (JObj [(''result'', JStr s)]))"

section \<open>Observations on a run\<close>

text \<open>What the \<open>i\<close>-th request issued makes \<^verbatim>\<open>_get_status_once\<close> return or raise.\<close>

definition response_of :: "remote \<Rightarrow> nat \<Rightarrow> exn + StatusResponse" where
  "response_of srv i = (case srv i of (d, rep) \<Rightarrow> parse_reply d rep)"

text \<open>The arguments of the callback invocations of a run, in order.\<close>

fun notifications :: "event list \<Rightarrow> StatusResponse list" where
  "notifications [] = []"
| "notifications (Notified r # evs) = r # notifications evs"
| "notifications (_ # evs) = notifications evs"

text \<open>The number of fetches of a run.\<close>

fun fetch_count :: "event list \<Rightarrow> nat" where
  "fetch_count [] = 0"
| "fetch_count (Fetched _ # evs) = Suc (fetch_count evs)"
| "fetch_count (_ # evs) = fetch_count evs"

text \<open>
  A fetch after which the loop goes on: a pending status, or an
  \<^verbatim>\<open>aiohttp.ClientError\<close> that is not a connection error.
\<close>

fun goes_on :: "exn + StatusResponse \<Rightarrow> bool" where
  "goes_on (Inr r) = (\<not> terminal (status r))"
| "goes_on (Inl e) = (is_ClientError e \<and> \<not> is_ClientConnectionError e)"

text \<open>The callback of the client, if it has one, returns normally when given \<open>r\<close>.\<close>

definition callback_returns :: "VideoTranslationClient \<Rightarrow> StatusResponse \<Rightarrow> bool" where
  "callback_returns c r =
     (case on_status_change c of None \<Rightarrow> True | Some cb \<Rightarrow> snd (cb r) = None)"


text \<open>
  One pass through the body of the loop, the \<^verbatim>\<open>try\<close> with its \<^verbatim>\<open>except\<close> clause: it
  ends the call, or the loop goes back to its guard with new values of \<^verbatim>\<open>attempt\<close>
  and \<^verbatim>\<open>last_status\<close>.
\<close>

datatype step = Stop "poll_error + StatusResponse" | Again nat "JobStatus option"

definition iteration ::
  "VideoTranslationClient \<Rightarrow> remote \<Rightarrow> nat \<Rightarrow> JobStatus option \<Rightarrow> world
     \<Rightarrow> step \<times> event list \<times> world" where
  "iteration c srv attempt last_status w =
     (case try_body c srv attempt last_status w of
        (Returned r, evs1, w1) \<Rightarrow> (Stop (Inr r), evs1, w1)
      | (Completed a l, evs1, w1) \<Rightarrow> (Again a l, evs1, w1)
      | (Raising e a l, evs1, w1) \<Rightarrow>
          if is_ClientError e then
            if is_ClientConnectionError e
            then (Stop (Inl (Raised e)), evs1, w1)
            else
              (case wait_before_retry c a w1 of
                 (Some e', evs2, w2) \<Rightarrow> (Stop (Inl (Raised e')), evs1 @ evs2, w2)
               | (None, evs2, w2) \<Rightarrow> (Again (a + 1) l, evs1 @ evs2, w2))
          else (Stop (Inl (Raised e)), evs1, w1))"

section \<open>The loop, one iteration at a time\<close>

declare poll_loop.simps [simp del]

lemma poll_loop_unfold:
  "poll_loop c srv dl a lst w =
     (if now w < dl \<and> int a < max_attempts (config c) then
        (case iteration c srv a lst w of
           (Stop out, evs1, w1) \<Rightarrow> (out, Checked (now w) a # evs1, w1)
         | (Again a' l', evs1, w1) \<Rightarrow>
             (case poll_loop c srv dl a' l' w1 of
                (out, evs, w') \<Rightarrow> (out, Checked (now w) a # evs1 @ evs, w')))
      else (Inl (TimeoutError (timeout (config c))), [Checked (now w) a], w))"
  by (subst poll_loop.simps)
     (simp add: iteration_def split: prod.splits try_result.splits option.splits)

lemma poll_loop_timeout:
  "\<not> (now w < dl \<and> int a < max_attempts (config c)) \<Longrightarrow>
   poll_loop c srv dl a lst w = (Inl (TimeoutError (timeout (config c))), [Checked (now w) a], w)"
  by (subst poll_loop_unfold) (erule if_not_P)

lemma poll_loop_stop:
  "now w < dl \<Longrightarrow> int a < max_attempts (config c) \<Longrightarrow>
   iteration c srv a lst w = (Stop out, evs1, w1) \<Longrightarrow>
   poll_loop c srv dl a lst w = (out, Checked (now w) a # evs1, w1)"
  by (subst poll_loop_unfold) simp

lemma poll_loop_again:
  "now w < dl \<Longrightarrow> int a < max_attempts (config c) \<Longrightarrow>
   iteration c srv a lst w = (Again a' l', evs1, w1) \<Longrightarrow>
   poll_loop c srv dl a' l' w1 = (out, evs, w') \<Longrightarrow>
   poll_loop c srv dl a lst w = (out, Checked (now w) a # evs1 @ evs, w')"
  by (subst poll_loop_unfold) simp


text \<open>The three ways one evaluation of the guard can go.\<close>

lemma poll_loop_cases [consumes 1, case_names Timeout Stop Again]:
  assumes "poll_loop c srv dl a lst w = (out, evs, w')"
  obtains
    (Timeout) "\<not> (now w < dl \<and> int a < max_attempts (config c))"
      "out = Inl (TimeoutError (timeout (config c)))" "evs = [Checked (now w) a]" "w' = w"
  | (Stop) evs1 where "now w < dl" "int a < max_attempts (config c)"
      "iteration c srv a lst w = (Stop out, evs1, w')"
      "evs = Checked (now w) a # evs1"
  | (Again) a' l' evs1 w1 evs2 where "now w < dl" "int a < max_attempts (config c)"
      "iteration c srv a lst w = (Again a' l', evs1, w1)"
      "poll_loop c srv dl a' l' w1 = (out, evs2, w')"
      "evs = Checked (now w) a # evs1 @ evs2"
proof (cases "now w < dl \<and> int a < max_attempts (config c)")
  case False
  with assms poll_loop_timeout [OF False, of srv lst] show thesis
    by (intro Timeout) auto
next
  case guard: True
  obtain s evs1 w1 where it: "iteration c srv a lst w = (s, evs1, w1)"
    by (cases "iteration c srv a lst w")
  show thesis
  proof (cases s)
    case (Stop out1)
    with assms guard it poll_loop_stop [of w dl a c srv lst out1 evs1 w1] show thesis
      by (intro that(2) [of evs1]) auto
  next
    case (Again a' l')
    obtain out2 evs2 w2 where p: "poll_loop c srv dl a' l' w1 = (out2, evs2, w2)"
      by (cases "poll_loop c srv dl a' l' w1")
    from assms guard it Again p poll_loop_again [of w dl a c srv lst a' l' evs1 w1 out2 evs2 w2]
    show thesis
      by (intro that(3) [of a' l' evs1 w1 evs2]) auto
  qed
qed


lemma poll_loop_head:
  "\<exists>out rest w'. poll_loop c srv dl a lst w = (out, Checked (now w) a # rest, w')"
proof -
  obtain out evs w' where run: "poll_loop c srv dl a lst w = (out, evs, w')"
    by (cases "poll_loop c srv dl a lst w")
  from run have "\<exists>rest. evs = Checked (now w) a # rest"
    by (cases rule: poll_loop_cases) simp_all
  with run show ?thesis by blast
qed


lemma get_status_once_eq:
  "srv (fetches w) = (d, rep) \<Longrightarrow>
   get_status_once srv w = (parse_reply d rep, w\<lparr>now := now w + d, fetches := fetches w + 1\<rparr>)"
  by (simp add: get_status_once_def)

lemma calculate_delay_raises:
  "calculate_delay c t k = Inl e \<Longrightarrow> e = OverflowError"
  by (auto simp: calculate_delay_def float_pow_def Let_def split: if_splits sum.splits)

lemma wait_before_retry_sleeps:
  "calculate_delay c (now w) k = Inr D \<Longrightarrow>
   wait_before_retry c k w = (None, [Slept D], w\<lparr>now := now w + max 0 D\<rparr>)"
  by (simp add: wait_before_retry_def)

lemma wait_before_retry_raises:
  "calculate_delay c (now w) k = Inl e \<Longrightarrow> wait_before_retry c k w = (Some e, [], w)"
  by (simp add: wait_before_retry_def)

lemma wait_before_retry_cases:
  obtains (Sleeps) D where "calculate_delay c (now w) k = Inr D"
      "wait_before_retry c k w = (None, [Slept D], w\<lparr>now := now w + max 0 D\<rparr>)"
  | (Raises) "calculate_delay c (now w) k = Inl OverflowError"
      "wait_before_retry c k w = (Some OverflowError, [], w)"
proof (cases "calculate_delay c (now w) k")
  case (Inl e)
  with calculate_delay_raises [OF Inl] wait_before_retry_raises [OF Inl] show thesis
    by (intro Raises) simp_all
next
  case (Inr D)
  with wait_before_retry_sleeps [OF Inr] show thesis by (intro Sleeps)
qed




lemma iteration_fetch_retry:
  assumes "get_status_once srv w = (Inl e, w1)" and "goes_on (Inl e)"
    and "calculate_delay c (now w1) a = Inr D"
  shows "iteration c srv a lst w =
     (Again (a + 1) lst, [Fetched (Inl e), Slept D], w1\<lparr>now := now w1 + max 0 D\<rparr>)"
  using assms by (simp add: iteration_def try_body_def wait_before_retry_def)


lemma iteration_terminal:
  assumes "get_status_once srv w = (Inr r, w1)"
    and "handle_status_change c r lst w1 = (None, evs1, w2)" and "terminal (status r)"
  shows "iteration c srv a lst w = (Stop (Inr r), Fetched (Inr r) # evs1, w2)"
  using assms by (simp add: iteration_def try_body_def)

lemma iteration_pending:
  assumes "get_status_once srv w = (Inr r, w1)"
    and "handle_status_change c r lst w1 = (None, evs1, w2)" and "\<not> terminal (status r)"
    and "calculate_delay c (now w2) (a + 1) = Inr D"
  shows "iteration c srv a lst w =
     (Again (a + 1) (Some (status r)), Fetched (Inr r) # evs1 @ [Slept D],
      w2\<lparr>now := now w2 + max 0 D\<rparr>)"
  using assms by (simp add: iteration_def try_body_def wait_before_retry_def)






section \<open>A fetch that returns a terminal status\<close>




section \<open>A fetch that raises\<close>








section \<open>The backoff delay\<close>

lemma jitter_factor_bounds: "1 \<le> 1 + 0.2 * frac (t::real) \<and> 1 + 0.2 * frac t < 1.2"
proof -
  have "0 \<le> frac t" "frac t < 1" by (simp_all add: frac_lt_1)
  then show ?thesis by simp
qed

lemma base_delay_nonneg:
  assumes "0 \<le> initial_delay (config c)" "initial_delay (config c) \<le> max_delay (config c)"
    "1 \<le> backoff_factor (config c)"
  shows "0 \<le> min (initial_delay (config c) * backoff_factor (config c) ^ a) (max_delay (config c))"
proof -
  from assms(3) have "0 \<le> backoff_factor (config c) ^ a" by simp
  with assms(1) have "0 \<le> initial_delay (config c) * backoff_factor (config c) ^ a" by simp
  moreover from assms(1,2) have "0 \<le> max_delay (config c)" by simp
  ultimately show ?thesis by simp
qed


text \<open>Within the range of a float the delay is the formula, with the jitter on top.\<close>

lemma calculate_delay_in_range:
  assumes "\<bar>backoff_factor (config c) ^ k\<bar> < float_limit"
  shows "calculate_delay c t k =
     Inr (min (initial_delay (config c) * backoff_factor (config c) ^ k) (max_delay (config c)) *
          (if jitter (config c) then 1 + 0.2 * frac t else 1))"
  using assms by (simp add: calculate_delay_def float_pow_def float_limit_def Let_def)

lemma calculate_delay_out_of_range:
  assumes "float_limit \<le> \<bar>backoff_factor (config c) ^ k\<bar>"
  shows "calculate_delay c t k = Inl OverflowError"
  using assms by (simp add: calculate_delay_def float_pow_def float_limit_def)

lemma calculate_delay_shape:
  assumes "0 \<le> initial_delay (config c)"
    and "initial_delay (config c) \<le> max_delay (config c)"
    and "1 \<le> backoff_factor (config c)"
    and "backoff_factor (config c) ^ attempt < float_limit"
  shows "\<exists>D. calculate_delay c t attempt = Inr D
       \<and> (\<not> jitter (config c) \<longrightarrow>
            D = min (initial_delay (config c) * backoff_factor (config c) ^ attempt) (max_delay (config c)))
       \<and> (jitter (config c) \<longrightarrow>
            (\<exists>f. 1 \<le> f \<and> f < 1.2 \<and>
               D = min (initial_delay (config c) * backoff_factor (config c) ^ attempt) (max_delay (config c)) * f))
       \<and> 0 \<le> D
       \<and> min (initial_delay (config c) * backoff_factor (config c) ^ attempt) (max_delay (config c)) \<le> D
       \<and> D \<le> max_delay (config c) * 1.2"
proof -
  define b where "b = min (initial_delay (config c) * backoff_factor (config c) ^ attempt) (max_delay (config c))"
  define f where "f = 1 + 0.2 * frac t"
  define m where "m = max_delay (config c)"
  define D where "D = b * (if jitter (config c) then f else 1)"
  from assms(3) have "0 \<le> backoff_factor (config c) ^ attempt" by simp
  with assms(4) have "\<bar>backoff_factor (config c) ^ attempt\<bar> < float_limit" by simp
  from calculate_delay_in_range [OF this, of t]
  have eq: "calculate_delay c t attempt = Inr D" by (simp add: D_def b_def f_def)
  have b0: "0 \<le> b" unfolding b_def using assms(1-3) by (rule base_delay_nonneg)
  have bm: "b \<le> m" unfolding b_def m_def by simp
  have f: "1 \<le> f" "f < 1.2" unfolding f_def using jitter_factor_bounds [of t] by simp_all
  have goal: "(\<not> jitter (config c) \<longrightarrow> D = b)
       \<and> (jitter (config c) \<longrightarrow> (\<exists>f. 1 \<le> f \<and> f < 1.2 \<and> D = b * f))
       \<and> 0 \<le> D \<and> b \<le> D \<and> D \<le> m * 1.2"
  proof (cases "jitter (config c)")
    case False
    then have d: "D = b" by (simp add: D_def)
    from b0 bm have "b \<le> m * 1.2" by simp
    with False d b0 show ?thesis by simp
  next
    case True
    then have d: "D = b * f" by (simp add: D_def)
    from b0 f(1) have lo: "b \<le> b * f" by (simp add: mult_le_cancel_left1)
    from b0 f(2) have "b * f \<le> b * 1.2" by (intro mult_left_mono) simp_all
    also from bm have "\<dots> \<le> m * 1.2" by simp
    finally have hi: "b * f \<le> m * 1.2" .
    from d f have ex: "\<exists>f. 1 \<le> f \<and> f < 1.2 \<and> D = b * f" by blast
    from b0 lo have "0 \<le> b * f" by linarith
    with True ex lo hi show ?thesis unfolding d by blast
  qed
  with eq show ?thesis unfolding b_def m_def by blast
qed

text \<open>
  Claim C3 fails on the code by the overflow of the power. The default configuration
  satisfies the constraints (\<open>initial_delay \<ge> 0\<close>, \<open>max_delay \<ge> initial_delay\<close>,
  \<open>backoff_factor \<ge> 1\<close>), and at attempt 1024 the claimed value
  \<open>min (initial_delay * backoff_factor ^ attempt) max_delay\<close> is 32, but
  \<^verbatim>\<open>_calculate_delay\<close> raises \<^verbatim>\<open>OverflowError\<close>: \<^verbatim>\<open>2.0 ** 1024\<close> is evaluated before
  \<^verbatim>\<open>min\<close> can clamp it. Within the range of a float the claim holds
  (\<open>calculate_delay_shape\<close>).
\<close>

theorem calculate_delay_overflows:
  "0 \<le> initial_delay default_config \<and> initial_delay default_config \<le> max_delay default_config
   \<and> 1 \<le> backoff_factor default_config
   \<and> calculate_delay (new_client [] None None) 0 1024 = Inl OverflowError
   \<and> min (initial_delay default_config * backoff_factor default_config ^ 1024)
        (max_delay default_config) = 32"
  by (simp add: calculate_delay_def float_pow_def float_limit_def new_client_def default_config_def)




section \<open>Runs that end at the timeout\<close>









section \<open>The order of events within an iteration\<close>

lemma poll_loop_again_head:
  assumes "now w < dl" and "int k < max_attempts (config c)"
    and "iteration c srv k lst w = (Again a' l', evs1, w1)"
  shows "\<exists>out rest w'. poll_loop c srv dl k lst w =
      (out, Checked (now w) k # evs1 @ Checked (now w1) a' # rest, w')"
proof -
  obtain out rest w' where
    "poll_loop c srv dl a' l' w1 = (out, Checked (now w1) a' # rest, w')"
    using poll_loop_head by blast
  from poll_loop_again [OF assms this] show ?thesis by blast
qed

text \<open>
  Claim C9, as amended. At an iteration whose guard passes with the attempt counter
  at \<open>k\<close>: after a fetch that returns pending, once the notification (if any) has
  returned normally, the loop sleeps \<^verbatim>\<open>_calculate_delay(k + 1)\<close>; after a retryable error
  of the fetch it sleeps \<^verbatim>\<open>_calculate_delay(k)\<close>; in both cases provided that this delay
  is computed without overflow, and on both paths the next evaluation of the guard
  sees the counter at \<open>k + 1\<close>. So the wait after a first pending fetch is based on
  \<open>initial_delay * backoff_factor\<close>.
\<close>

theorem backoff_schedule_of_the_two_paths:
  assumes "now w < dl" and "int k < max_attempts (config c)"
    and "srv (fetches w) = (d, rep)" and "goes_on (parse_reply d rep)"
    and "w1 = w\<lparr>now := now w + d, fetches := fetches w + 1\<rparr>"
  shows "(\<forall>r evs1 w2 D.
            parse_reply d rep = Inr r \<and> handle_status_change c r lst w1 = (None, evs1, w2) \<and>
            calculate_delay c (now w2) (k + 1) = Inr D \<longrightarrow>
            (\<exists>out rest w'. poll_loop c srv dl k lst w =
               (out, Checked (now w) k # Fetched (Inr r) # evs1 @
                     Slept D # Checked (now w2 + max 0 D) (k + 1) # rest, w')))
       \<and> (\<forall>e D.
            parse_reply d rep = Inl e \<and> calculate_delay c (now w1) k = Inr D \<longrightarrow>
            (\<exists>out rest w'. poll_loop c srv dl k lst w =
               (out, Checked (now w) k # Fetched (Inl e) #
                     Slept D # Checked (now w1 + max 0 D) (k + 1) # rest, w')))
       \<and> (\<bar>backoff_factor (config c)\<bar> < float_limit \<longrightarrow>
            calculate_delay c t (0 + 1) =
              Inr (min (initial_delay (config c) * backoff_factor (config c)) (max_delay (config c)) *
                   (if jitter (config c) then 1 + 0.2 * frac t else 1)))"
proof -
  from get_status_once_eq [of srv w, OF assms(3)] assms(5)
  have g: "get_status_once srv w = (parse_reply d rep, w1)" by simp
  have a: "\<exists>out rest w'. poll_loop c srv dl k lst w =
               (out, Checked (now w) k # Fetched (Inr r) # evs1 @
                     Slept D # Checked (now w2 + max 0 D) (k + 1) # rest, w')"
    if "parse_reply d rep = Inr r" "handle_status_change c r lst w1 = (None, evs1, w2)"
      "calculate_delay c (now w2) (k + 1) = Inr D" for r evs1 w2 D
  proof -
    from that(1) g assms(4) have "get_status_once srv w = (Inr r, w1)" "\<not> terminal (status r)"
      by simp_all
    from poll_loop_again_head [OF assms(1,2) iteration_pending [OF this(1) that(2) this(2) that(3)]]
    show ?thesis by simp
  qed
  have b: "\<exists>out rest w'. poll_loop c srv dl k lst w =
               (out, Checked (now w) k # Fetched (Inl e) #
                     Slept D # Checked (now w1 + max 0 D) (k + 1) # rest, w')"
    if "parse_reply d rep = Inl e" "calculate_delay c (now w1) k = Inr D" for e D
  proof -
    from that(1) g assms(4) have "get_status_once srv w = (Inl e, w1)" "goes_on (Inl e)"
      by simp_all
    from poll_loop_again_head [OF assms(1,2) iteration_fetch_retry [OF this that(2)]]
    show ?thesis by simp
  qed
  have d: "calculate_delay c t (0 + 1) =
            Inr (min (initial_delay (config c) * backoff_factor (config c)) (max_delay (config c)) *
              (if jitter (config c) then 1 + 0.2 * frac t else 1))"
    if "\<bar>backoff_factor (config c)\<bar> < float_limit"
    using that by (simp add: calculate_delay_def float_pow_def float_limit_def Let_def)
  from a b d show ?thesis by blast
qed

text \<open>
  Claim C9 as stated fails when the callback raises on the pending response: the
  call then raises that exception and does not sleep at all.
\<close>

theorem backoff_schedule_of_the_two_paths_counterexample:
  "parse_reply (1 / 2) (json_response ''pending'') = Inr \<lparr>status = pending, raw_response = JObj [(''result'', JStr ''pending'')], elapsed_time = 1 / 2\<rparr>
   \<and> poll_until_complete
        (new_client ''http://localhost:8000'' None (Some (\<lambda>r. (0, Some ValueError))))
        (\<lambda>i. (1 / 2, json_response ''pending'')) \<lparr>now = 0, fetches = 0\<rparr> =
      (Inl (Raised ValueError), [Checked 0 0, Fetched (Inr \<lparr>status = pending, raw_response = JObj [(''result'', JStr ''pending'')], elapsed_time = 1 / 2\<rparr>), Notified \<lparr>status = pending, raw_response = JObj [(''result'', JStr ''pending'')], elapsed_time = 1 / 2\<rparr>],
       \<lparr>now = 1 / 2, fetches = 1\<rparr>)"
  by (simp add: poll_until_complete_def poll_loop.simps try_body_def new_client_def
      default_config_def get_status_once_def json_response_def handle_status_change_def
      terminal_def)

theorem backoff_schedule_of_the_two_paths_witness:
  "(\<exists>out rest w'.
      poll_loop
        (new_client ''http://localhost:8000'' (Some (default_config\<lparr>jitter := False\<rparr>))
           (Some (\<lambda>r. (1 / 4, None))))
        (\<lambda>i. (1 / 2, json_response ''pending'')) 300 0 None \<lparr>now = 0, fetches = 0\<rparr> =
      (out, Checked 0 0 # Fetched (Inr \<lparr>status = pending, raw_response = JObj [(''result'', JStr ''pending'')], elapsed_time = 1 / 2\<rparr>) # Notified \<lparr>status = pending, raw_response = JObj [(''result'', JStr ''pending'')], elapsed_time = 1 / 2\<rparr> #
            Slept 2 # Checked (11 / 4) 1 # rest, w'))
   \<and> (\<exists>out rest w'.
      poll_loop
        (new_client ''http://localhost:8000'' (Some (default_config\<lparr>jitter := False\<rparr>))
           (Some (\<lambda>r. (1 / 4, None))))
        (\<lambda>i. (1 / 2, Response 503 (Json JNull))) 300 0 None \<lparr>now = 0, fetches = 0\<rparr> =
      (out, Checked 0 0 # Fetched (Inl (ClientResponseError 503)) #
            Slept 1 # Checked (3 / 2) 1 # rest, w'))"
proof -
  let ?c = "new_client ''http://localhost:8000'' (Some (default_config\<lparr>jitter := False\<rparr>))
           (Some (\<lambda>r. (1 / 4, None)))"
  let ?w = "\<lparr>now = 0, fetches = 0\<rparr>"
  let ?w1 = "\<lparr>now = 1 / 2, fetches = 1\<rparr>"
  have 1: "now ?w < 300" by simp
  have 2: "int 0 < max_attempts (config ?c)" by (simp add: new_client_def default_config_def)
  have 3: "(\<lambda>i::nat. (1 / 2 :: real, json_response ''pending'')) (fetches ?w)
      = (1 / 2, json_response ''pending'')" by simp
  have b3: "(\<lambda>i::nat. (1 / 2 :: real, Response 503 (Json JNull))) (fetches ?w)
      = (1 / 2, Response 503 (Json JNull))" by simp
  have p: "parse_reply (1 / 2) (json_response ''pending'') = Inr \<lparr>status = pending, raw_response = JObj [(''result'', JStr ''pending'')], elapsed_time = 1 / 2\<rparr>"
    by (simp add: json_response_def)
  have p': "parse_reply (1 / 2) (Response 503 (Json JNull)) = Inl (ClientResponseError 503)"
    by simp
  have 4: "goes_on (parse_reply (1 / 2) (json_response ''pending''))"
    by (simp add: json_response_def terminal_def)
  have b4: "goes_on (parse_reply (1 / 2) (Response 503 (Json JNull)))" by simp
  have 5: "?w1 = ?w\<lparr>now := now ?w + 1 / 2, fetches := fetches ?w + 1\<rparr>" by simp
  have h: "handle_status_change ?c \<lparr>status = pending, raw_response = JObj [(''result'', JStr ''pending'')], elapsed_time = 1 / 2\<rparr> None ?w1 = (None, [Notified \<lparr>status = pending, raw_response = JObj [(''result'', JStr ''pending'')], elapsed_time = 1 / 2\<rparr>], \<lparr>now = 3 / 4, fetches = 1\<rparr>)"
    by (simp add: handle_status_change_def new_client_def)
  have d: "calculate_delay ?c (now \<lparr>now = 3 / 4, fetches = 1\<rparr>) (0 + 1) = Inr 2"
    "calculate_delay ?c (now ?w1) 0 = Inr 1"
    by (simp_all add: calculate_delay_def float_pow_def float_limit_def new_client_def default_config_def)
  note T = backoff_schedule_of_the_two_paths [OF 1 2 3 4 5, where lst = None and t = 0]
  note T' = backoff_schedule_of_the_two_paths [OF 1 2 b3 b4 5, where lst = None and t = 0]
  from T p h d(1) have a: "\<exists>out rest w'.
      poll_loop ?c (\<lambda>i. (1 / 2, json_response ''pending'')) 300 0 None ?w =
      (out, Checked 0 0 # Fetched (Inr \<lparr>status = pending, raw_response = JObj [(''result'', JStr ''pending'')], elapsed_time = 1 / 2\<rparr>) # Notified \<lparr>status = pending, raw_response = JObj [(''result'', JStr ''pending'')], elapsed_time = 1 / 2\<rparr> # Slept 2 # Checked (11 / 4) 1 # rest, w')"
    by simp
  from T' p' d(2) have b: "\<exists>out rest w'.
      poll_loop ?c (\<lambda>i. (1 / 2, Response 503 (Json JNull))) 300 0 None ?w =
      (out, Checked 0 0 # Fetched (Inl (ClientResponseError 503)) # Slept 1 # Checked (3 / 2) 1 # rest, w')"
    by simp
  from a b show ?thesis by blast
qed

text \<open>
  Claim C10, as amended. The guard is evaluated at the top of the loop only. When a
  fetch returns pending or fails retryably, the notification (if any) has returned
  normally and the delay is computed without overflow, and by then the deadline has
  passed or the incremented counter has reached \<open>max_attempts\<close>, the whole backoff delay
  is still slept; only then does the guard fail and the \<^verbatim>\<open>TimeoutError\<close> is raised, with
  no fetch after that last wait.
\<close>

theorem final_wait_before_timeout:
  assumes "now w < dl" and "int a < max_attempts (config c)"
    and "srv (fetches w) = (d, rep)" and "goes_on (parse_reply d rep)"
    and "w1 = w\<lparr>now := now w + d, fetches := fetches w + 1\<rparr>"
    and "(case parse_reply d rep of Inr r \<Rightarrow> handle_status_change c r lst w1
          | Inl e \<Rightarrow> (None, [], w1)) = (None, evs1, w2)"
    and "calculate_delay c (now w2) (case parse_reply d rep of Inr r \<Rightarrow> a + 1 | Inl e \<Rightarrow> a) = Inr D"
    and "dl \<le> now w2 \<or> max_attempts (config c) \<le> int (a + 1)"
  shows "poll_loop c srv dl a lst w =
      (Inl (TimeoutError (timeout (config c))),
       Checked (now w) a # Fetched (parse_reply d rep) # evs1 @
         [Slept D, Checked (now w2 + max 0 D) (a + 1)],
       w2\<lparr>now := now w2 + max 0 D\<rparr>)"
proof -
  let ?w3 = "w2\<lparr>now := now w2 + max 0 D\<rparr>"
  from get_status_once_eq [of srv w, OF assms(3)] assms(5)
  have g: "get_status_once srv w = (parse_reply d rep, w1)" by simp
  from assms(8) have "\<not> (now ?w3 < dl \<and> int (a + 1) < max_attempts (config c))"
    by auto
  then have next_it: "\<And>l. poll_loop c srv dl (a + 1) l ?w3 =
      (Inl (TimeoutError (timeout (config c))), [Checked (now ?w3) (a + 1)], ?w3)"
    by (rule poll_loop_timeout)
  show ?thesis
  proof (cases "parse_reply d rep")
    case (Inr r)
    with g assms(4,6,7) have h: "get_status_once srv w = (Inr r, w1)" "\<not> terminal (status r)"
      "handle_status_change c r lst w1 = (None, evs1, w2)"
      "calculate_delay c (now w2) (a + 1) = Inr D"
      by simp_all
    from poll_loop_again [OF assms(1,2) iteration_pending [OF h(1,3,2,4)] next_it] Inr
    show ?thesis by simp
  next
    case (Inl e)
    with g assms(4,6,7) have h: "get_status_once srv w = (Inl e, w1)" "goes_on (Inl e)"
      "calculate_delay c (now w1) a = Inr D" and e: "evs1 = []" "w2 = w1"
      by simp_all
    from poll_loop_again [OF assms(1,2) iteration_fetch_retry [OF h] next_it [unfolded e]] Inl e
    show ?thesis by simp
  qed
qed


text \<open>
  Claim C10 as stated fails when the callback raises on the pending response: with
  \<open>max_attempts = 1\<close> the call below raises the callback's exception after its only
  fetch, without any wait and without a \<^verbatim>\<open>TimeoutError\<close>.
\<close>

theorem final_wait_before_timeout_counterexample:
  "parse_reply (1 / 2) (json_response ''pending'') = Inr \<lparr>status = pending, raw_response = JObj [(''result'', JStr ''pending'')], elapsed_time = 1 / 2\<rparr>
   \<and> max_attempts (default_config\<lparr>max_attempts := 1\<rparr>) \<le> int (0 + 1)
   \<and> poll_until_complete
        (new_client ''http://localhost:8000'' (Some (default_config\<lparr>max_attempts := 1\<rparr>))
           (Some (\<lambda>r. (0, Some ValueError))))
        (\<lambda>i. (1 / 2, json_response ''pending'')) \<lparr>now = 0, fetches = 0\<rparr> =
      (Inl (Raised ValueError), [Checked 0 0, Fetched (Inr \<lparr>status = pending, raw_response = JObj [(''result'', JStr ''pending'')], elapsed_time = 1 / 2\<rparr>), Notified \<lparr>status = pending, raw_response = JObj [(''result'', JStr ''pending'')], elapsed_time = 1 / 2\<rparr>],
       \<lparr>now = 1 / 2, fetches = 1\<rparr>)"
  by (simp add: poll_until_complete_def poll_loop.simps try_body_def new_client_def
      default_config_def get_status_once_def json_response_def handle_status_change_def
      terminal_def)

theorem final_wait_before_timeout_witness:
  "poll_loop
     (new_client ''http://localhost:8000'' (Some (default_config\<lparr>max_attempts := 1, jitter := False\<rparr>))
        (Some (\<lambda>r. (1 / 4, None))))
     (\<lambda>i. (1 / 2, json_response ''pending'')) 300 0 None \<lparr>now = 0, fetches = 0\<rparr> =
      (Inl (TimeoutError 300),
       [Checked 0 0, Fetched (Inr \<lparr>status = pending, raw_response = JObj [(''result'', JStr ''pending'')], elapsed_time = 1 / 2\<rparr>), Notified \<lparr>status = pending, raw_response = JObj [(''result'', JStr ''pending'')], elapsed_time = 1 / 2\<rparr>, Slept 2, Checked (11 / 4) 1],
       \<lparr>now = 11 / 4, fetches = 1\<rparr>)
   \<and> poll_loop
     (new_client ''http://localhost:8000'' (Some (default_config\<lparr>timeout := 1 / 5, jitter := False\<rparr>)) None)
     (\<lambda>i. (1 / 4, Response 503 (Json JNull))) (1 / 5) 0 None \<lparr>now = 0, fetches = 0\<rparr> =
      (Inl (TimeoutError (1 / 5)),
       [Checked 0 0, Fetched (Inl (ClientResponseError 503)), Slept 1, Checked (5 / 4) 1],
       \<lparr>now = 5 / 4, fetches = 1\<rparr>)"
proof -
  let ?c = "new_client ''http://localhost:8000'' (Some (default_config\<lparr>max_attempts := 1, jitter := False\<rparr>))
        (Some (\<lambda>r. (1 / 4, None)))"
  let ?c' = "new_client ''http://localhost:8000'' (Some (default_config\<lparr>timeout := 1 / 5, jitter := False\<rparr>)) None"
  let ?w = "\<lparr>now = 0, fetches = 0\<rparr>"
  let ?w1 = "\<lparr>now = 1 / 2, fetches = 1\<rparr>"
  let ?w2 = "\<lparr>now = 3 / 4, fetches = 1\<rparr>"
  let ?w1' = "\<lparr>now = 1 / 4, fetches = 1\<rparr>"
  have 1: "now ?w < 300" "now ?w < 1 / 5" by simp_all
  have 2: "int 0 < max_attempts (config ?c)" "int 0 < max_attempts (config ?c')"
    by (simp_all add: new_client_def default_config_def)
  have 3: "(\<lambda>i::nat. (1 / 2 :: real, json_response ''pending'')) (fetches ?w)
      = (1 / 2, json_response ''pending'')" by simp
  have b3: "(\<lambda>i::nat. (1 / 4 :: real, Response 503 (Json JNull))) (fetches ?w)
      = (1 / 4, Response 503 (Json JNull))" by simp
  have p: "parse_reply (1 / 2) (json_response ''pending'') = Inr \<lparr>status = pending, raw_response = JObj [(''result'', JStr ''pending'')], elapsed_time = 1 / 2\<rparr>"
    by (simp add: json_response_def)
  have p': "parse_reply (1 / 4) (Response 503 (Json JNull)) = Inl (ClientResponseError 503)"
    by simp
  have 4: "goes_on (parse_reply (1 / 2) (json_response ''pending''))"
    by (simp add: json_response_def terminal_def)
  have b4: "goes_on (parse_reply (1 / 4) (Response 503 (Json JNull)))" by simp
  have 5: "?w1 = ?w\<lparr>now := now ?w + 1 / 2, fetches := fetches ?w + 1\<rparr>" by simp
  have b5: "?w1' = ?w\<lparr>now := now ?w + 1 / 4, fetches := fetches ?w + 1\<rparr>" by simp
  have 6: "(case parse_reply (1 / 2) (json_response ''pending'') of
              Inr r \<Rightarrow> handle_status_change ?c r None ?w1 | Inl e \<Rightarrow> (None, [], ?w1))
           = (None, [Notified \<lparr>status = pending, raw_response = JObj [(''result'', JStr ''pending'')], elapsed_time = 1 / 2\<rparr>], ?w2)"
    by (simp add: json_response_def handle_status_change_def new_client_def)
  have b6: "(case parse_reply (1 / 4) (Response 503 (Json JNull)) of
              Inr r \<Rightarrow> handle_status_change ?c' r None ?w1' | Inl e \<Rightarrow> (None, [], ?w1'))
           = (None, [], ?w1')"
    by simp
  have 7: "calculate_delay ?c (now ?w2)
      (case parse_reply (1 / 2) (json_response ''pending'') of Inr r \<Rightarrow> 0 + 1 | Inl e \<Rightarrow> 0) = Inr 2"
    by (simp add: json_response_def calculate_delay_def float_pow_def float_limit_def new_client_def default_config_def)
  have b7: "calculate_delay ?c' (now ?w1')
      (case parse_reply (1 / 4) (Response 503 (Json JNull)) of Inr r \<Rightarrow> 0 + 1 | Inl e \<Rightarrow> 0) = Inr 1"
    by (simp add: calculate_delay_def float_pow_def float_limit_def new_client_def default_config_def)
  have 8: "300 \<le> now ?w2 \<or> max_attempts (config ?c) \<le> int (0 + 1)"
    by (simp add: new_client_def default_config_def)
  have b8: "1 / 5 \<le> now ?w1' \<or> max_attempts (config ?c') \<le> int (0 + 1)"
    by simp
  from final_wait_before_timeout [OF 1(1) 2(1) 3 4 5 6 7 8]
       final_wait_before_timeout [OF 1(2) 2(2) b3 b4 b5 b6 b7 b8] p p'
  show ?thesis by (simp add: new_client_def default_config_def)
qed

section \<open>Pending, then completed\<close>

lemma notifications_append: "notifications (xs @ ys) = notifications xs @ notifications ys"
  by (induction xs rule: notifications.induct) simp_all

lemma fetch_count_append: "fetch_count (xs @ ys) = fetch_count xs + fetch_count ys"
  by (induction xs rule: fetch_count.induct) simp_all

lemma get_status_once_response:
  "\<exists>w1. get_status_once srv w = (response_of srv (fetches w), w1) \<and> fetches w1 = fetches w + 1"
  by (auto simp: get_status_once_def response_of_def split: prod.splits)

lemma handle_status_change_quiet_events:
  assumes "callback_returns c r"
  shows "\<exists>w2. handle_status_change c r lst w1 =
           (None, map Notified (if on_status_change c \<noteq> None \<and> lst \<noteq> Some (status r) then [r] else []), w2)
         \<and> fetches w2 = fetches w1"
  using assms
  by (auto simp: handle_status_change_def callback_returns_def split: option.splits prod.splits)

lemma iteration_on_terminal_response:
  assumes "response_of srv (fetches w) = Inr r" and "callback_returns c r"
    and "terminal (status r)"
  shows "\<exists>w2. iteration c srv a lst w =
           (Stop (Inr r),
            Fetched (Inr r) #
              map Notified (if on_status_change c \<noteq> None \<and> lst \<noteq> Some (status r) then [r] else []),
            w2)
         \<and> fetches w2 = fetches w + 1"
proof -
  from get_status_once_response [of srv w] assms(1) obtain w1 where
    g: "get_status_once srv w = (Inr r, w1)" and f: "fetches w1 = fetches w + 1"
    by auto
  from handle_status_change_quiet_events [OF assms(2), of lst w1] obtain w2 where
    h: "handle_status_change c r lst w1 =
           (None, map Notified (if on_status_change c \<noteq> None \<and> lst \<noteq> Some (status r) then [r] else []), w2)"
    and f2: "fetches w2 = fetches w1"
    by blast
  from iteration_terminal [OF g h assms(3)] f f2 show ?thesis by simp
qed

lemma iteration_on_pending_response:
  assumes "response_of srv (fetches w) = Inr r" and "callback_returns c r"
    and "\<not> terminal (status r)" and "\<bar>backoff_factor (config c) ^ (a + 1)\<bar> < float_limit"
  shows "\<exists>D w3. iteration c srv a lst w =
           (Again (a + 1) (Some (status r)),
            Fetched (Inr r) #
              map Notified (if on_status_change c \<noteq> None \<and> lst \<noteq> Some (status r) then [r] else []) @
              [Slept D],
            w3)
         \<and> fetches w3 = fetches w + 1"
proof -
  from get_status_once_response [of srv w] assms(1) obtain w1 where
    g: "get_status_once srv w = (Inr r, w1)" and f: "fetches w1 = fetches w + 1"
    by auto
  from handle_status_change_quiet_events [OF assms(2), of lst w1] obtain w2 where
    h: "handle_status_change c r lst w1 =
           (None, map Notified (if on_status_change c \<noteq> None \<and> lst \<noteq> Some (status r) then [r] else []), w2)"
    and f2: "fetches w2 = fetches w1"
    by blast
  from calculate_delay_in_range [OF assms(4), of "now w2"] obtain D where
    d: "calculate_delay c (now w2) (a + 1) = Inr D" by blast
  from iteration_pending [OF g h assms(3) d] f f2 show ?thesis by simp
qed

lemma poll_loop_pending_then_completed:
  assumes "\<forall>r. callback_returns c r"
    and "poll_loop c srv dl a lst w = (out, evs, w')"
    and "\<forall>i<N. \<exists>r. response_of srv (fetches w + i) = Inr r \<and> status r = pending"
    and "response_of srv (fetches w + N) = Inr rN" and "status rN = completed"
    and "\<forall>t k. Checked t k \<in> set evs \<longrightarrow> t < dl \<and> int k < max_attempts (config c)"
    and "\<forall>k. a < k \<and> k \<le> a + N \<longrightarrow> \<bar>backoff_factor (config c) ^ k\<bar> < float_limit"
  shows "out = Inr rN \<and> fetch_count evs = N + 1 \<and> fetches w' = fetches w + N + 1 \<and>
         notifications evs =
           (if on_status_change c = None then []
            else if N = 0 then (if lst = Some completed then [] else [rN])
            else (case response_of srv (fetches w) of
                    Inr r0 \<Rightarrow> (if lst = Some pending then [] else [r0]) @ [rN]
                  | Inl e \<Rightarrow> []))"
  using assms(2-)
proof (induction N arbitrary: a lst w out evs)
  case 0
  from "0.prems"(3) have first: "response_of srv (fetches w) = Inr rN" by simp
  from assms(1) have q: "callback_returns c rN" by blast
  from "0.prems"(4) have t: "terminal (status rN)" by (simp add: terminal_def)
  from iteration_on_terminal_response [OF first q t, of a lst] obtain w2 where
    it: "iteration c srv a lst w =
           (Stop (Inr rN),
            Fetched (Inr rN) #
              map Notified (if on_status_change c \<noteq> None \<and> lst \<noteq> Some (status rN) then [rN] else []),
            w2)"
    and f2: "fetches w2 = fetches w + 1"
    by blast
  from "0.prems"(1) show ?case
  proof (cases rule: poll_loop_cases)
    case Timeout
    with "0.prems"(5) show ?thesis by auto
  next
    case (Stop evs1)
    with it f2 "0.prems"(4) show ?thesis by auto
  next
    case (Again a' l' evs1 w1 evs2)
    with it show ?thesis by simp
  qed
next
  case (Suc N)
  from Suc.prems(2) obtain r0 where first: "response_of srv (fetches w) = Inr r0"
    and r0: "status r0 = pending"
    by force
  from assms(1) have q: "callback_returns c r0" by blast
  from r0 have t: "\<not> terminal (status r0)" by (simp add: terminal_def)
  have "a < a + 1 \<and> a + 1 \<le> a + Suc N" by simp
  with Suc.prems(6) have rg: "\<bar>backoff_factor (config c) ^ (a + 1)\<bar> < float_limit" by blast
  from iteration_on_pending_response [OF first q t rg, of lst] obtain D w3 where
    it: "iteration c srv a lst w =
           (Again (a + 1) (Some (status r0)),
            Fetched (Inr r0) #
              map Notified (if on_status_change c \<noteq> None \<and> lst \<noteq> Some (status r0) then [r0] else []) @
              [Slept D],
            w3)"
    and f: "fetches w3 = fetches w + 1"
    by blast
  from Suc.prems(1) show ?case
  proof (cases rule: poll_loop_cases)
    case Timeout
    with Suc.prems(5) show ?thesis by auto
  next
    case (Stop evs1)
    with it show ?thesis by simp
  next
    case (Again a' l' evs1 w1 evs2)
    from Again(3) it have eq: "a' = a + 1" "l' = Some pending" "w1 = w3"
      and e1: "evs1 = Fetched (Inr r0) #
              map Notified (if on_status_change c \<noteq> None \<and> lst \<noteq> Some pending then [r0] else []) @
              [Slept D]"
      by (auto simp: r0)
    have p: "\<forall>i<N. \<exists>r. response_of srv (fetches w3 + i) = Inr r \<and> status r = pending"
    proof (intro allI impI)
      fix i assume "i < N"
      then have "Suc i < Suc N" by simp
      with Suc.prems(2) have "\<exists>r. response_of srv (fetches w + Suc i) = Inr r \<and> status r = pending"
        by blast
      then show "\<exists>r. response_of srv (fetches w3 + i) = Inr r \<and> status r = pending"
        by (simp add: f)
    qed
    have l: "response_of srv (fetches w3 + N) = Inr rN"
      using Suc.prems(3) by (simp add: f)
    have b: "\<forall>t k. Checked t k \<in> set evs2 \<longrightarrow> t < dl \<and> int k < max_attempts (config c)"
      using Suc.prems(5) Again(5) by auto
    have rg': "\<forall>k. a + 1 < k \<and> k \<le> a + 1 + N \<longrightarrow> \<bar>backoff_factor (config c) ^ k\<bar> < float_limit"
    proof (intro allI impI)
      fix k assume "a + 1 < k \<and> k \<le> a + 1 + N"
      then have "a < k \<and> k \<le> a + Suc N" by simp
      with Suc.prems(6) show "\<bar>backoff_factor (config c) ^ k\<bar> < float_limit" by blast
    qed
    from Again(4) eq have run3: "poll_loop c srv dl (a + 1) (Some pending) w3 = (out, evs2, w')"
      by simp
    note ih = Suc.IH [OF run3 p l Suc.prems(4) b rg']
    have n3: "notifications evs2 = (if on_status_change c = None then [] else [rN])"
    proof (cases "N = 0")
      case True
      with ih show ?thesis by simp
    next
      case False
      with p obtain r1 where "response_of srv (fetches w3) = Inr r1" by force
      with ih False show ?thesis by simp
    qed
    from ih have o: "out = Inr rN" and c3: "fetch_count evs2 = N + 1"
      and f3: "fetches w' = fetches w3 + N + 1" by simp_all
    have "fetch_count evs = Suc N + 1"
      using Again(5) e1 c3 by (simp add: fetch_count_append)
    moreover have "notifications evs =
        (if on_status_change c = None then [] else (if lst = Some pending then [] else [r0]) @ [rN])"
      using Again(5) e1 n3 by (simp add: notifications_append)
    ultimately show ?thesis using o first f f3 by simp
  qed
qed

text \<open>
  Claim C6, as amended. Let the first \<open>N\<close> fetches of the call report pending and the
  next one completed, let no evaluation of the guard in the run find the budget
  exhausted, let no invocation of the callback raise, and let \<open>backoff_factor ^ k\<close> be
  within the range of a float for \<open>k = 1, \<dots>, N\<close>. Then the call makes exactly \<open>N + 1\<close>
  fetches and returns the completed response. A client with a callback invokes it,
  for \<open>N \<ge> 1\<close>, exactly twice, with the first pending response and then with the
  completed one, and for \<open>N = 0\<close> exactly once, with the completed response; a client
  without one notifies nobody.
\<close>

theorem pending_then_completed:
  assumes "poll_until_complete c srv w = (out, evs, w')"
    and "\<forall>i<N. \<exists>r. response_of srv (fetches w + i) = Inr r \<and> status r = pending"
    and "response_of srv (fetches w + N) = Inr rN" and "status rN = completed"
    and "\<forall>t k. Checked t k \<in> set evs \<longrightarrow>
           t < now w + timeout (config c) \<and> int k < max_attempts (config c)"
    and "\<forall>r. callback_returns c r"
    and "\<forall>k. 1 \<le> k \<and> k \<le> N \<longrightarrow> \<bar>backoff_factor (config c) ^ k\<bar> < float_limit"
  shows "out = Inr rN \<and> fetch_count evs = N + 1 \<and> fetches w' = fetches w + N + 1
       \<and> (on_status_change c = None \<longrightarrow> notifications evs = [])
       \<and> (on_status_change c \<noteq> None \<and> 0 < N \<longrightarrow>
            (\<exists>r0. response_of srv (fetches w) = Inr r0 \<and> status r0 = pending \<and>
                  notifications evs = [r0, rN]))
       \<and> (on_status_change c \<noteq> None \<and> N = 0 \<longrightarrow> notifications evs = [rN])"
proof -
  from assms(1) have run: "poll_loop c srv (now w + timeout (config c)) 0 None w = (out, evs, w')"
    by (simp add: poll_until_complete_def)
  have rg: "\<forall>k. 0 < k \<and> k \<le> 0 + N \<longrightarrow> \<bar>backoff_factor (config c) ^ k\<bar> < float_limit"
  proof (intro allI impI)
    fix k :: nat assume "0 < k \<and> k \<le> 0 + N"
    then have "1 \<le> k \<and> k \<le> N" by simp
    with assms(7) show "\<bar>backoff_factor (config c) ^ k\<bar> < float_limit" by blast
  qed
  note l = poll_loop_pending_then_completed [OF assms(6) run assms(2-5) rg]
  have "\<exists>r0. response_of srv (fetches w) = Inr r0 \<and> status r0 = pending \<and>
                          notifications evs = [r0, rN]" if "on_status_change c \<noteq> None" "0 < N"
  proof -
    from that(2) assms(2) obtain r0 where "response_of srv (fetches w) = Inr r0" "status r0 = pending"
      by force
    with l that show ?thesis by simp
  qed
  with l show ?thesis by simp
qed


text \<open>
  Claim C6 as stated fails at \<open>N = 0\<close>: when the first fetch reports completed the
  callback is invoked once, not twice.
\<close>

theorem pending_then_completed_counterexample:
  "on_status_change (new_client ''http://localhost:8000'' None (Some (\<lambda>r. (1 / 4, None))))
     = Some (\<lambda>r. (1 / 4, None))
   \<and> response_of (\<lambda>i. (1, json_response ''completed'')) (0 + 0) = Inr \<lparr>status = completed, raw_response = JObj [(''result'', JStr ''completed'')], elapsed_time = 1\<rparr>
   \<and> status \<lparr>status = completed, raw_response = JObj [(''result'', JStr ''completed'')], elapsed_time = 1\<rparr> = completed
   \<and> poll_until_complete (new_client ''http://localhost:8000'' None (Some (\<lambda>r. (1 / 4, None))))
        (\<lambda>i. (1, json_response ''completed'')) \<lparr>now = 0, fetches = 0\<rparr> =
       (Inr \<lparr>status = completed, raw_response = JObj [(''result'', JStr ''completed'')], elapsed_time = 1\<rparr>, [Checked 0 0, Fetched (Inr \<lparr>status = completed, raw_response = JObj [(''result'', JStr ''completed'')], elapsed_time = 1\<rparr>), Notified \<lparr>status = completed, raw_response = JObj [(''result'', JStr ''completed'')], elapsed_time = 1\<rparr>], \<lparr>now = 5 / 4, fetches = 1\<rparr>)
   \<and> (0::real) < 0 + timeout default_config \<and> int 0 < max_attempts default_config
   \<and> notifications [Checked 0 0, Fetched (Inr \<lparr>status = completed, raw_response = JObj [(''result'', JStr ''completed'')], elapsed_time = 1\<rparr>), Notified \<lparr>status = completed, raw_response = JObj [(''result'', JStr ''completed'')], elapsed_time = 1\<rparr>] = [\<lparr>status = completed, raw_response = JObj [(''result'', JStr ''completed'')], elapsed_time = 1\<rparr>]
   \<and> length (notifications [Checked 0 0, Fetched (Inr \<lparr>status = completed, raw_response = JObj [(''result'', JStr ''completed'')], elapsed_time = 1\<rparr>), Notified \<lparr>status = completed, raw_response = JObj [(''result'', JStr ''completed'')], elapsed_time = 1\<rparr>]) \<noteq> 2"
  by (simp add: poll_until_complete_def poll_loop.simps try_body_def new_client_def
      default_config_def get_status_once_def json_response_def handle_status_change_def
      terminal_def response_of_def)

theorem pending_then_completed_witness:
  "poll_until_complete
      (new_client ''http://localhost:8000'' (Some (default_config\<lparr>jitter := False\<rparr>))
         (Some (\<lambda>r. (1 / 4, None))))
      (\<lambda>i. if i < 2 then (1 / 2, json_response ''pending'') else (1, json_response ''completed''))
      \<lparr>now = 0, fetches = 0\<rparr> =
     (Inr \<lparr>status = completed, raw_response = JObj [(''result'', JStr ''completed'')], elapsed_time = 1\<rparr>,
      [Checked 0 0, Fetched (Inr \<lparr>status = pending, raw_response = JObj [(''result'', JStr ''pending'')], elapsed_time = 1 / 2\<rparr>), Notified \<lparr>status = pending, raw_response = JObj [(''result'', JStr ''pending'')], elapsed_time = 1 / 2\<rparr>, Slept 2,
       Checked (11 / 4) 1, Fetched (Inr \<lparr>status = pending, raw_response = JObj [(''result'', JStr ''pending'')], elapsed_time = 1 / 2\<rparr>), Slept 4,
       Checked (29 / 4) 2, Fetched (Inr \<lparr>status = completed, raw_response = JObj [(''result'', JStr ''completed'')], elapsed_time = 1\<rparr>), Notified \<lparr>status = completed, raw_response = JObj [(''result'', JStr ''completed'')], elapsed_time = 1\<rparr>],
      \<lparr>now = 17 / 2, fetches = 3\<rparr>)
   \<and> fetch_count
      [Checked 0 0, Fetched (Inr \<lparr>status = pending, raw_response = JObj [(''result'', JStr ''pending'')], elapsed_time = 1 / 2\<rparr>), Notified \<lparr>status = pending, raw_response = JObj [(''result'', JStr ''pending'')], elapsed_time = 1 / 2\<rparr>, Slept 2,
       Checked (11 / 4) 1, Fetched (Inr \<lparr>status = pending, raw_response = JObj [(''result'', JStr ''pending'')], elapsed_time = 1 / 2\<rparr>), Slept 4,
       Checked (29 / 4) 2, Fetched (Inr \<lparr>status = completed, raw_response = JObj [(''result'', JStr ''completed'')], elapsed_time = 1\<rparr>), Notified \<lparr>status = completed, raw_response = JObj [(''result'', JStr ''completed'')], elapsed_time = 1\<rparr>] = 2 + 1
   \<and> notifications
      [Checked 0 0, Fetched (Inr \<lparr>status = pending, raw_response = JObj [(''result'', JStr ''pending'')], elapsed_time = 1 / 2\<rparr>), Notified \<lparr>status = pending, raw_response = JObj [(''result'', JStr ''pending'')], elapsed_time = 1 / 2\<rparr>, Slept 2,
       Checked (11 / 4) 1, Fetched (Inr \<lparr>status = pending, raw_response = JObj [(''result'', JStr ''pending'')], elapsed_time = 1 / 2\<rparr>), Slept 4,
       Checked (29 / 4) 2, Fetched (Inr \<lparr>status = completed, raw_response = JObj [(''result'', JStr ''completed'')], elapsed_time = 1\<rparr>), Notified \<lparr>status = completed, raw_response = JObj [(''result'', JStr ''completed'')], elapsed_time = 1\<rparr>] = [\<lparr>status = pending, raw_response = JObj [(''result'', JStr ''pending'')], elapsed_time = 1 / 2\<rparr>, \<lparr>status = completed, raw_response = JObj [(''result'', JStr ''completed'')], elapsed_time = 1\<rparr>]"
proof -
  let ?c = "new_client ''http://localhost:8000'' (Some (default_config\<lparr>jitter := False\<rparr>))
         (Some (\<lambda>r. (1 / 4, None)))"
  let ?srv = "\<lambda>i::nat. if i < 2 then (1 / 2 :: real, json_response ''pending'') else (1, json_response ''completed'')"
  let ?w = "\<lparr>now = 0, fetches = 0\<rparr>"
  let ?evs = "[Checked 0 0, Fetched (Inr \<lparr>status = pending, raw_response = JObj [(''result'', JStr ''pending'')], elapsed_time = 1 / 2\<rparr>), Notified \<lparr>status = pending, raw_response = JObj [(''result'', JStr ''pending'')], elapsed_time = 1 / 2\<rparr>, Slept 2,
       Checked (11 / 4) 1, Fetched (Inr \<lparr>status = pending, raw_response = JObj [(''result'', JStr ''pending'')], elapsed_time = 1 / 2\<rparr>), Slept 4,
       Checked (29 / 4) 2, Fetched (Inr \<lparr>status = completed, raw_response = JObj [(''result'', JStr ''completed'')], elapsed_time = 1\<rparr>), Notified \<lparr>status = completed, raw_response = JObj [(''result'', JStr ''completed'')], elapsed_time = 1\<rparr>]"
  have 1: "poll_until_complete ?c ?srv ?w = (Inr \<lparr>status = completed, raw_response = JObj [(''result'', JStr ''completed'')], elapsed_time = 1\<rparr>, ?evs, \<lparr>now = 17 / 2, fetches = 3\<rparr>)"
    by (simp add: poll_until_complete_def poll_loop.simps try_body_def new_client_def
      default_config_def get_status_once_def json_response_def handle_status_change_def
      terminal_def wait_before_retry_def calculate_delay_def float_pow_def float_limit_def)
  have 2: "\<forall>i<2. \<exists>r. response_of ?srv (fetches ?w + i) = Inr r \<and> status r = pending"
    by (simp add: response_of_def json_response_def)
  have 3: "response_of ?srv (fetches ?w + 2) = Inr \<lparr>status = completed, raw_response = JObj [(''result'', JStr ''completed'')], elapsed_time = 1\<rparr>"
    by (simp add: response_of_def json_response_def)
  have 4: "status \<lparr>status = completed, raw_response = JObj [(''result'', JStr ''completed'')], elapsed_time = 1\<rparr> = completed" by simp
  have 5: "\<forall>t k. Checked t k \<in> set ?evs \<longrightarrow>
      t < now ?w + timeout (config ?c) \<and> int k < max_attempts (config ?c)"
    by (auto simp: new_client_def default_config_def)
  have 6: "\<forall>r. callback_returns ?c r" by (simp add: callback_returns_def new_client_def)
  have 7: "\<forall>k. 1 \<le> k \<and> k \<le> 2 \<longrightarrow> \<bar>backoff_factor (config ?c) ^ k\<bar> < float_limit"
  proof (intro allI impI)
    fix k :: nat assume "1 \<le> k \<and> k \<le> 2"
    then have "k = 1 \<or> k = 2" by auto
    then show "\<bar>backoff_factor (config ?c) ^ k\<bar> < float_limit"
      by (auto simp: new_client_def default_config_def float_limit_def)
  qed
  have 8: "response_of ?srv (fetches ?w) = Inr \<lparr>status = pending, raw_response = JObj [(''result'', JStr ''pending'')], elapsed_time = 1 / 2\<rparr>"
    by (simp add: response_of_def json_response_def)
  have 9: "on_status_change ?c \<noteq> None" by (simp add: new_client_def)
  from pending_then_completed [OF 1 2 3 4 5 6 7] 1 8 9 show ?thesis by simp
qed

section \<open>One call and the next\<close>











end
